theory Spec2Isabelle
  imports Main
begin

section \<open>The conversation controller of the travel widget\<close>

text \<open>
  The component modelled is \<^verbatim>\<open>App\<close> of \<^verbatim>\<open>src/unnamed/part_000\<close>: the chat widget
  with the submit-then-poll protocol, the contact form and the suggested replies. The
  polling variant of \<^verbatim>\<open>src/frontend/travel-widget/src/App.js\<close> is the same code without
  the form and the suggestions.

  A React handler does not change the state directly: it calls setters
  (\<^verbatim>\<open>setMessages\<close>, \<^verbatim>\<open>setIsLoading\<close>, ...), mutates the ref
  \<^verbatim>\<open>pollingIntervalRef\<close> and calls the host (\<^verbatim>\<open>setInterval\<close>, \<^verbatim>\<open>clearInterval\<close>,
  \<^verbatim>\<open>axios\<close>). Each handler is therefore translated into the list of the effects it
  issues, in source order, and \<open>run\<close> applies such a list to the state. What a handler reads
  from its closure (\<^verbatim>\<open>isLoading\<close>, \<^verbatim>\<open>threadId\<close>, \<^verbatim>\<open>inputValue\<close>, \<^verbatim>\<open>userInfo\<close>) is
  read from the state at the moment the handler is called; the interval callback keeps the
  \<^verbatim>\<open>userInfo\<close> and the \<^verbatim>\<open>taskId\<close> of the call of \<^verbatim>\<open>pollForResult\<close> that created it.

  Each handler runs as one step, its \<^verbatim>\<open>await\<close> included: the answer of the backend is
  an argument of the step. Callbacks whose requests overlap in time are outside the model.
\<close>

subsection \<open>JavaScript values\<close>

text \<open>
  Strings are lists of 8-bit characters; of the code points that \<^verbatim>\<open>String.prototype.trim\<close>
  strips, those below 256 are tab, line feed, vertical tab, form feed, carriage return,
  space and no-break space.
\<close>

definition js_whitespace :: "char \<Rightarrow> bool" where
  "js_whitespace c = (of_char c \<in> set [9, 10, 11, 12, 13, 32, 160 :: nat])"

definition trim :: "string \<Rightarrow> string" where
  "trim s = rev (dropWhile js_whitespace (rev (dropWhile js_whitespace s)))"

text \<open>\<^verbatim>\<open>!v\<close> for a value that is a string, \<^verbatim>\<open>null\<close> or \<^verbatim>\<open>undefined\<close> (\<open>None\<close>).\<close>

definition falsy :: "string option \<Rightarrow> bool" where
  "falsy v = (case v of None \<Rightarrow> True | Some t \<Rightarrow> t = [])"

text \<open>\<^verbatim>\<open>v || d\<close> for such a value and a string \<open>d\<close>.\<close>

definition or_else :: "string option \<Rightarrow> string \<Rightarrow> string" where
  "or_else v d = (case v of None \<Rightarrow> d | Some t \<Rightarrow> if t = [] then d else t)"

text \<open>The decimal digits of a number, as a template literal renders \<^verbatim>\<open>Date.now()\<close>.\<close>

fun decimal :: "nat \<Rightarrow> string" where
  "decimal n =
     (if n < 10 then [''0123456789'' ! n]
      else decimal (n div 10) @ [''0123456789'' ! (n mod 10)])"

declare decimal.simps [simp del]

subsection \<open>Data model\<close>

datatype sender = User | Bot

text \<open>
  A transcript entry \<^verbatim>\<open>{type, text, isLoading, isError}\<close>. The two flags are only ever
  tested for truthiness, so an absent flag is \<open>False\<close>. \<open>msg_text\<close> is \<open>None\<close> when the
  text is \<^verbatim>\<open>undefined\<close> (a completed result without \<^verbatim>\<open>reply\<close>).
\<close>

record message =
  msg_type :: sender
  msg_text :: "string option"
  msg_isLoading :: bool
  msg_isError :: bool

record contact =
  contact_name :: string
  contact_email :: string

text \<open>What the callback given to \<^verbatim>\<open>setInterval\<close> captured.\<close>

record interval =
  iv_taskId :: string
  iv_userInfo :: "contact option"

datatype request =
    Post string "string option"
  | Get string

text \<open>
  The state of the component: the seven \<^verbatim>\<open>useState\<close> cells, the ref
  \<^verbatim>\<open>pollingIntervalRef\<close>, and of the host the table of the active intervals, the next
  handle \<^verbatim>\<open>setInterval\<close> returns and the log of the HTTP requests issued.
\<close>

record app =
  messages :: "message list"
  inputValue :: string
  isLoading :: bool
  threadId :: "string option"
  suggestedReplies :: "string list"
  showContactForm :: bool
  userInfo :: "contact option"
  pollingIntervalRef :: "nat option"
  intervals :: "(nat \<times> interval) list"
  nextHandle :: nat
  requests :: "request list"

text \<open>
  The initial values of the hooks. Handles of \<^verbatim>\<open>setInterval\<close> are integers greater than
  zero, so the first one is 1.
\<close>

definition initial_app :: app where
  "initial_app =
     \<lparr>messages = [], inputValue = [], isLoading = False, threadId = None,
      suggestedReplies = [], showContactForm = False, userInfo = None,
      pollingIntervalRef = None, intervals = [], nextHandle = 1, requests = []\<rparr>"

subsection \<open>Effects\<close>

text \<open>
  The three shapes of argument \<^verbatim>\<open>setMessages\<close> receives in the source:
  a new array, \<^verbatim>\<open>prev => [...prev, a, b]\<close> and \<^verbatim>\<open>prev => [...prev.slice(0, -1), m]\<close>.
\<close>

datatype messages_update =
    SetTo "message list"
  | Append "message list"
  | ReplaceLast message

fun apply_messages_update :: "messages_update \<Rightarrow> message list \<Rightarrow> message list" where
  "apply_messages_update (SetTo ms) prev = ms"
| "apply_messages_update (Append ms) prev = prev @ ms"
| "apply_messages_update (ReplaceLast m) prev = butlast prev @ [m]"

datatype action =
    SetMessages messages_update
  | SetInputValue string
  | SetIsLoading bool
  | SetThreadId "string option"
  | SetSuggestedReplies "string list"
  | SetShowContactForm bool
  | SetUserInfo "contact option"
  | ClearInterval
  | ClearIntervalIfSet
  | StartInterval interval
  | Request request

text \<open>\<^verbatim>\<open>clearInterval(h)\<close> of the host: the interval with that handle, if any, is removed.\<close>

definition clearInterval :: "nat \<Rightarrow> (nat \<times> interval) list \<Rightarrow> (nat \<times> interval) list" where
  "clearInterval h tbl = filter (\<lambda>e. fst e \<noteq> h) tbl"

text \<open>
  \<open>ClearInterval\<close> is \<^verbatim>\<open>clearInterval(pollingIntervalRef.current)\<close>, which does nothing
  for \<^verbatim>\<open>null\<close>; \<open>ClearIntervalIfSet\<close> is the same call under
  \<^verbatim>\<open>if (pollingIntervalRef.current)\<close>, which also skips the handle 0. Neither resets the ref.
  \<open>StartInterval iv\<close> is \<^verbatim>\<open>pollingIntervalRef.current = setInterval(callback, 2500)\<close>.
\<close>

fun apply_action :: "action \<Rightarrow> app \<Rightarrow> app" where
  "apply_action (SetMessages u) s = s\<lparr>messages := apply_messages_update u (messages s)\<rparr>"
| "apply_action (SetInputValue v) s = s\<lparr>inputValue := v\<rparr>"
| "apply_action (SetIsLoading b) s = s\<lparr>isLoading := b\<rparr>"
| "apply_action (SetThreadId t) s = s\<lparr>threadId := t\<rparr>"
| "apply_action (SetSuggestedReplies xs) s = s\<lparr>suggestedReplies := xs\<rparr>"
| "apply_action (SetShowContactForm b) s = s\<lparr>showContactForm := b\<rparr>"
| "apply_action (SetUserInfo u) s = s\<lparr>userInfo := u\<rparr>"
| "apply_action ClearInterval s =
     (case pollingIntervalRef s of
        None \<Rightarrow> s
      | Some h \<Rightarrow> s\<lparr>intervals := clearInterval h (intervals s)\<rparr>)"
| "apply_action ClearIntervalIfSet s =
     (case pollingIntervalRef s of
        None \<Rightarrow> s
      | Some h \<Rightarrow> if h = 0 then s else s\<lparr>intervals := clearInterval h (intervals s)\<rparr>)"
| "apply_action (StartInterval iv) s =
     s\<lparr>intervals := intervals s @ [(nextHandle s, iv)],
       pollingIntervalRef := Some (nextHandle s),
       nextHandle := Suc (nextHandle s)\<rparr>"
| "apply_action (Request r) s = s\<lparr>requests := requests s @ [r]\<rparr>"

definition run :: "action list \<Rightarrow> app \<Rightarrow> app" where
  "run acts s = fold apply_action acts s"

text \<open>The states a list of effects passes through, the first and the last included.\<close>

fun states :: "action list \<Rightarrow> app \<Rightarrow> app list" where
  "states [] s = [s]"
| "states (a # acts) s = s # states acts (apply_action a s)"

subsection \<open>Handlers\<close>

text \<open>
  The effect run once after the first render. The welcome text and the four initial
  suggestions of the source contain characters outside ASCII and are parameters;
  \<open>now\<close> is \<^verbatim>\<open>Date.now()\<close>.
\<close>

definition mount_effect :: "string \<Rightarrow> string list \<Rightarrow> nat \<Rightarrow> action list" where
  "mount_effect welcomeMessage initialReplies now =
     [SetMessages (SetTo [\<lparr>msg_type = Bot, msg_text = Some welcomeMessage,
                           msg_isLoading = False, msg_isError = False\<rparr>]),
      SetSuggestedReplies initialReplies,
      SetThreadId (Some (''session_'' @ decimal now))]"

definition pollForResult :: "string \<Rightarrow> contact option \<Rightarrow> action list" where
  "pollForResult taskId closure_userInfo =
     [ClearIntervalIfSet,
      StartInterval \<lparr>iv_taskId = taskId, iv_userInfo = closure_userInfo\<rparr>]"

text \<open>The answer of \<^verbatim>\<open>GET /chat/status/{task_id}\<close>.\<close>

record result =
  result_reply :: "string option"
  result_error :: "string option"

datatype get_outcome =
    GetRejects
  | GetResolves string "result option" "string option"

text \<open>The \<^verbatim>\<open>catch\<close> block of the interval callback.\<close>

definition poll_catch :: "action list" where
  "poll_catch =
     [ClearInterval, SetIsLoading False, SetShowContactForm False,
      SetMessages (ReplaceLast \<lparr>msg_type = Bot, msg_text = Some ''Failed to get a response.'',
                                msg_isLoading = False, msg_isError = True\<rparr>)]"

text \<open>
  The callback of \<^verbatim>\<open>setInterval\<close> in \<^verbatim>\<open>pollForResult\<close>. With status
  \<^verbatim>\<open>completed\<close> and no \<^verbatim>\<open>result\<close>, reading \<^verbatim>\<open>result.reply\<close> throws after the first
  three effects of the branch, and the \<^verbatim>\<open>catch\<close> block runs.
\<close>

fun interval_callback :: "interval \<Rightarrow> get_outcome \<Rightarrow> action list" where
  "interval_callback iv GetRejects = Request (Get (iv_taskId iv)) # poll_catch"
| "interval_callback iv (GetResolves status res form_to_display) =
     Request (Get (iv_taskId iv)) #
     (if form_to_display = Some ''contact_info'' \<and> iv_userInfo iv = None
      then [SetShowContactForm True] else []) @
     (if status = ''completed'' then
        [ClearInterval, SetIsLoading False, SetShowContactForm False] @
        (case res of
           None \<Rightarrow> poll_catch
         | Some r \<Rightarrow>
            [SetMessages (ReplaceLast \<lparr>msg_type = Bot, msg_text = result_reply r,
                                      msg_isLoading = False, msg_isError = False\<rparr>)])
      else if status = ''failed'' then
        [ClearInterval, SetIsLoading False, SetShowContactForm False,
         SetMessages (ReplaceLast
           \<lparr>msg_type = Bot,
            msg_text = Some (''An error occurred: '' @
              or_else (case res of None \<Rightarrow> None | Some r \<Rightarrow> result_error r) ''Unknown error''),
            msg_isLoading = False, msg_isError = True\<rparr>)]
      else [])"

text \<open>
  The answer of \<^verbatim>\<open>POST /chat\<close>: the promise rejects, with
  \<^verbatim>\<open>error.response?.data?.detail\<close> as given, or resolves with \<^verbatim>\<open>response.data.task_id\<close>
  as given.
\<close>

datatype post_outcome =
    PostRejects "string option"
  | PostResolves "string option"

definition thinking :: message where
  "thinking = \<lparr>msg_type = Bot, msg_text = Some ''Astra is thinking...'',
               msg_isLoading = True, msg_isError = False\<rparr>"

definition userMessage :: "string \<Rightarrow> message" where
  "userMessage messageText = \<lparr>msg_type = User, msg_text = Some messageText,
               msg_isLoading = False, msg_isError = False\<rparr>"

text \<open>The part of \<^verbatim>\<open>handleSendMessage\<close> before the \<^verbatim>\<open>await\<close>, the guard passed.\<close>

definition handleSendMessage_sync :: "string \<Rightarrow> app \<Rightarrow> action list" where
  "handleSendMessage_sync messageText s =
     [SetMessages (Append [userMessage messageText, thinking]),
      SetIsLoading True,
      SetInputValue [],
      SetSuggestedReplies [],
      Request (Post messageText (threadId s))]"

text \<open>The \<^verbatim>\<open>catch\<close> block of \<^verbatim>\<open>handleSendMessage\<close>.\<close>

definition send_catch :: "string option \<Rightarrow> action list" where
  "send_catch detail =
     [SetIsLoading False,
      SetMessages (ReplaceLast
        \<lparr>msg_type = Bot, msg_text = Some (or_else detail ''Could not connect to the assistant.''),
         msg_isLoading = False, msg_isError = True\<rparr>)]"

text \<open>
  The part after the \<^verbatim>\<open>await\<close>. The error thrown for a missing task id has no
  \<^verbatim>\<open>response\<close>, so its detail is \<^verbatim>\<open>undefined\<close>.
\<close>

fun handleSendMessage_resume :: "post_outcome \<Rightarrow> app \<Rightarrow> action list" where
  "handleSendMessage_resume (PostRejects detail) s = send_catch detail"
| "handleSendMessage_resume (PostResolves task_id) s =
     (case task_id of
        None \<Rightarrow> send_catch None
      | Some t \<Rightarrow> if t = [] then send_catch None else pollForResult t (userInfo s))"

text \<open>
  \<^verbatim>\<open>handleSendMessage(messageText = inputValue)\<close>: \<open>None\<close> is the call without argument.
\<close>

definition handleSendMessage :: "string option \<Rightarrow> post_outcome \<Rightarrow> app \<Rightarrow> action list" where
  "handleSendMessage arg outcome s =
     (let messageText = (case arg of None \<Rightarrow> inputValue s | Some t \<Rightarrow> t)
      in if trim messageText = [] \<or> isLoading s \<or> falsy (threadId s) then []
         else handleSendMessage_sync messageText s @ handleSendMessage_resume outcome s)"

definition acknowledgement :: message where
  "acknowledgement = \<lparr>msg_type = Bot, msg_text = Some ''Thanks! I've saved your information.'',
                       msg_isLoading = False, msg_isError = False\<rparr>"

definition handleFormSubmit :: "contact \<Rightarrow> action list" where
  "handleFormSubmit data =
     [SetUserInfo (Some data),
      SetShowContactForm False,
      SetMessages (Append [acknowledgement])]"

definition handleSuggestionSelect :: "string \<Rightarrow> post_outcome \<Rightarrow> app \<Rightarrow> action list" where
  "handleSuggestionSelect suggestion outcome s = handleSendMessage (Some suggestion) outcome s"

subsection \<open>Events\<close>

definition on_send :: "string option \<Rightarrow> post_outcome \<Rightarrow> app \<Rightarrow> app" where
  "on_send arg outcome s = run (handleSendMessage arg outcome s) s"

definition on_suggestion :: "string \<Rightarrow> post_outcome \<Rightarrow> app \<Rightarrow> app" where
  "on_suggestion suggestion outcome s = run (handleSuggestionSelect suggestion outcome s) s"

text \<open>The interval with handle \<open>h\<close> fires, if it is active.\<close>

definition on_interval :: "nat \<Rightarrow> get_outcome \<Rightarrow> app \<Rightarrow> app" where
  "on_interval h outcome s =
     (case map_of (intervals s) h of
        None \<Rightarrow> s
      | Some iv \<Rightarrow> run (interval_callback iv outcome) s)"

definition on_formSubmit :: "contact \<Rightarrow> app \<Rightarrow> app" where
  "on_formSubmit data s = run (handleFormSubmit data) s"

definition on_inputChange :: "string \<Rightarrow> app \<Rightarrow> app" where
  "on_inputChange v s = run [SetInputValue v] s"

text \<open>The states of the component: before and after the mount effect, and after any event.\<close>

inductive reachable :: "app \<Rightarrow> bool" where
  initial: "reachable initial_app"
| mounted: "reachable (run (mount_effect w rs now) initial_app)"
| send: "reachable s \<Longrightarrow> reachable (on_send arg outcome s)"
| interval: "reachable s \<Longrightarrow> reachable (on_interval h outcome s)"
| formSubmit: "reachable s \<Longrightarrow> reachable (on_formSubmit data s)"
| inputChange: "reachable s \<Longrightarrow> reachable (on_inputChange v s)"

subsection \<open>Answers and effects by kind\<close>

text \<open>
  A poll answered with the status \<^verbatim>\<open>pending\<close>; a poll that resolves the task (the status
  is \<^verbatim>\<open>completed\<close> or \<^verbatim>\<open>failed\<close>, or the request threw); a submit call that failed
  (the request threw or was answered outside 2xx, or its answer has no task id), and the
  detail the \<^verbatim>\<open>catch\<close> block then reads.
\<close>

fun is_pending :: "get_outcome \<Rightarrow> bool" where
  "is_pending GetRejects = False"
| "is_pending (GetResolves status res form_to_display) = (status = ''pending'')"

fun is_resolution :: "get_outcome \<Rightarrow> bool" where
  "is_resolution GetRejects = True"
| "is_resolution (GetResolves status res form_to_display) =
     (status = ''completed'' \<or> status = ''failed'')"



fun is_SetMessages :: "action \<Rightarrow> bool" where
  "is_SetMessages (SetMessages u) = True"
| "is_SetMessages a = False"



definition one_timer :: "app \<Rightarrow> bool" where
  "one_timer t = (length (intervals t) \<le> 1)"

subsection \<open>Single flight\<close>

text \<open>
  The invariant of the reachable states: at most one interval is active; it is the one whose
  handle the ref holds and it exists only while \<open>isLoading\<close> is set, with a transcript
  that is not empty; what it captured of \<open>userInfo\<close> is empty whenever the current
  \<open>userInfo\<close> is.
\<close>

definition single_flight :: "app \<Rightarrow> bool" where
  "single_flight s =
     (nextHandle s \<noteq> 0 \<and>
      (case intervals s of
         [] \<Rightarrow> True
       | e # rest \<Rightarrow>
           rest = [] \<and> fst e \<noteq> 0 \<and> pollingIntervalRef s = Some (fst e) \<and>
           isLoading s \<and> messages s \<noteq> [] \<and>
           (userInfo s = None \<longrightarrow> iv_userInfo (snd e) = None)))"

subsection \<open>Concrete states\<close>

text \<open>
  The widget after its mount effect; after \<^verbatim>\<open>hello\<close> was sent and the backend answered
  with the task id \<^verbatim>\<open>t1\<close>; after a poll answered \<^verbatim>\<open>pending\<close> and asked for the contact
  form; and after the user submitted that form, the task still pending.
\<close>

definition app_mounted :: app where
  "app_mounted = run (mount_effect ''Hi!'' [''Search for flights''] 1730) initial_app"

definition app_polling :: app where
  "app_polling = on_send (Some ''hello'') (PostResolves (Some ''t1'')) app_mounted"

definition contact_ann :: contact where
  "contact_ann = \<lparr>contact_name = ''Ann'', contact_email = ''ann@example.com''\<rparr>"

definition app_form_shown :: app where
  "app_form_shown =
     on_interval 1 (GetResolves ''pending'' None (Some ''contact_info'')) app_polling"

definition app_form_sent :: app where
  "app_form_sent = on_formSubmit contact_ann app_form_shown"

section \<open>Properties\<close>

lemmas handler_defs =
  run_def on_send_def on_interval_def on_formSubmit_def on_inputChange_def on_suggestion_def
  handleSendMessage_def handleSendMessage_sync_def send_catch_def pollForResult_def
  poll_catch_def handleFormSubmit_def handleSuggestionSelect_def mount_effect_def
  clearInterval_def falsy_def or_else_def trim_def js_whitespace_def userMessage_def
  thinking_def initial_app_def Let_def

subsection \<open>The invariant\<close>

lemma single_flight_initial: "single_flight initial_app"
  by (simp add: single_flight_def initial_app_def)

lemma single_flight_mounted: "single_flight (run (mount_effect w rs now) initial_app)"
  by (simp add: single_flight_def initial_app_def run_def mount_effect_def)

lemma single_flight_send:
  assumes "single_flight s"
  shows "single_flight (on_send arg outcome s)"
proof (cases "handleSendMessage arg outcome s = []")
  case True
  then show ?thesis using assms by (simp add: on_send_def run_def)
next
  case False
  then have idle: "\<not> isLoading s"
    by (auto simp: handleSendMessage_def Let_def split: if_splits)
  with assms have none: "intervals s = []" and nh: "nextHandle s \<noteq> 0"
    by (auto simp: single_flight_def split: list.splits)
  show ?thesis
  proof (cases outcome)
    case (PostRejects d)
    with False none nh show ?thesis
      by (simp add: on_send_def run_def handleSendMessage_def Let_def handleSendMessage_sync_def
          send_catch_def single_flight_def split: if_splits)
  next
    case (PostResolves t)
    with False none nh show ?thesis
      by (simp add: on_send_def run_def handleSendMessage_def Let_def handleSendMessage_sync_def
          send_catch_def pollForResult_def single_flight_def clearInterval_def
          split: if_splits option.splits)
  qed
qed

lemma single_flight_interval:
  assumes "single_flight s"
  shows "single_flight (on_interval h outcome s)"
proof (cases "map_of (intervals s) h")
  case None
  then show ?thesis using assms by (simp add: on_interval_def)
next
  case (Some iv)
  then obtain e where tbl: "intervals s = [e]" and e: "e = (h, iv)"
    using assms by (auto simp: single_flight_def split: list.splits if_splits)
  from assms tbl e have ref: "pollingIntervalRef s = Some h" and nh: "nextHandle s \<noteq> 0" "h \<noteq> 0"
    and rest: "isLoading s" "messages s \<noteq> []" "userInfo s = None \<longrightarrow> iv_userInfo iv = None"
    by (auto simp: single_flight_def)
  show ?thesis
  proof (cases outcome)
    case GetRejects
    with Some tbl e ref nh show ?thesis
      by (simp add: on_interval_def run_def poll_catch_def single_flight_def clearInterval_def)
  next
    case (GetResolves st res f)
    with Some tbl e ref nh rest show ?thesis
      by (simp add: on_interval_def run_def poll_catch_def single_flight_def clearInterval_def
          split: option.splits)
  qed
qed

lemma single_flight_formSubmit:
  assumes "single_flight s"
  shows "single_flight (on_formSubmit d s)"
  using assms
  by (auto simp: on_formSubmit_def run_def handleFormSubmit_def single_flight_def split: list.splits)

lemma single_flight_inputChange:
  assumes "single_flight s"
  shows "single_flight (on_inputChange v s)"
  using assms
  by (auto simp: on_inputChange_def run_def single_flight_def split: list.splits)

lemma reachable_single_flight: "reachable s \<Longrightarrow> single_flight s"
  by (induction rule: reachable.induct)
    (simp_all add: single_flight_initial single_flight_mounted single_flight_send
      single_flight_interval single_flight_formSubmit single_flight_inputChange)

lemma active_interval:
  assumes "single_flight s" and "map_of (intervals s) h = Some iv"
  shows "intervals s = [(h, iv)] \<and> pollingIntervalRef s = Some h \<and> h \<noteq> 0 \<and>
         isLoading s \<and> messages s \<noteq> [] \<and> (userInfo s = None \<longrightarrow> iv_userInfo iv = None)"
  using assms by (auto simp: single_flight_def split: list.splits if_splits)

lemma idle_no_interval:
  assumes "single_flight s" and "\<not> isLoading s"
  shows "intervals s = [] \<and> nextHandle s \<noteq> 0"
  using assms by (auto simp: single_flight_def split: list.splits)

lemma single_flight_length:
  assumes "single_flight s"
  shows "length (intervals s) \<le> 1 \<and> list_all (\<lambda>e. pollingIntervalRef s = Some (fst e)) (intervals s)"
  using assms by (auto simp: single_flight_def split: list.splits)

subsection \<open>The concrete states\<close>

lemma reachable_app_mounted: "reachable app_mounted"
  unfolding app_mounted_def by (rule reachable.mounted)

lemma reachable_app_polling: "reachable app_polling"
  unfolding app_polling_def by (rule reachable.send [OF reachable_app_mounted])

lemma app_mounted_eval:
  "app_mounted = \<lparr>messages = [\<lparr>msg_type = Bot, msg_text = Some ''Hi!'', msg_isLoading = False, msg_isError = False\<rparr>],
      inputValue = [], isLoading = False, threadId = Some ''session_1730'',
      suggestedReplies = [''Search for flights''], showContactForm = False, userInfo = None,
      pollingIntervalRef = None, intervals = [], nextHandle = 1, requests = []\<rparr>"
  by (simp add: app_mounted_def handler_defs decimal.simps)

lemma app_polling_eval:
  "app_polling = \<lparr>messages = [\<lparr>msg_type = Bot, msg_text = Some ''Hi!'', msg_isLoading = False, msg_isError = False\<rparr>,
        \<lparr>msg_type = User, msg_text = Some ''hello'', msg_isLoading = False, msg_isError = False\<rparr>,
        \<lparr>msg_type = Bot, msg_text = Some ''Astra is thinking...'', msg_isLoading = True, msg_isError = False\<rparr>],
      inputValue = [], isLoading = True, threadId = Some ''session_1730'',
      suggestedReplies = [], showContactForm = False, userInfo = None,
      pollingIntervalRef = Some 1, intervals = [(1, \<lparr>iv_taskId = ''t1'', iv_userInfo = None\<rparr>)],
      nextHandle = 2, requests = [Post ''hello'' (Some ''session_1730'')]\<rparr>"
  by (simp add: app_polling_def app_mounted_eval handler_defs)

lemma reachable_app_form_shown: "reachable app_form_shown"
  unfolding app_form_shown_def by (rule reachable.interval [OF reachable_app_polling])

lemma reachable_app_form_sent: "reachable app_form_sent"
  unfolding app_form_sent_def by (rule reachable.formSubmit [OF reachable_app_form_shown])

lemma app_form_shown_eval:
  "app_form_shown = app_polling\<lparr>showContactForm := True, requests := requests app_polling @ [Get ''t1'']\<rparr>"
  by (simp add: app_form_shown_def app_polling_eval on_interval_def run_def)

lemma app_form_sent_eval:
  "app_form_sent = app_polling\<lparr>showContactForm := False, requests := requests app_polling @ [Get ''t1''],
     userInfo := Some contact_ann, messages := messages app_polling @ [acknowledgement]\<rparr>"
  by (simp add: app_form_sent_def app_form_shown_eval app_polling_eval on_formSubmit_def run_def
      handleFormSubmit_def acknowledgement_def)

subsection \<open>Sending\<close>

text \<open>
  C2. A call \<^verbatim>\<open>handleSendMessage(text)\<close> whose text is empty after trimming, or made
  while \<open>isLoading\<close> is set, or made without a session id, returns at its guard: it issues
  no effect at all, so the whole state of the component, the transcript, \<open>isLoading\<close> and
  the suggestions included, is the one before the call. The handler has no path that throws.
\<close>

theorem send_rejected_is_noop:
  assumes "trim text = [] \<or> isLoading s \<or> threadId s = None"
  shows "handleSendMessage (Some text) outcome s = [] \<and> on_send (Some text) outcome s = s"
  using assms by (auto simp: handleSendMessage_def on_send_def run_def falsy_def)

theorem send_rejected_is_noop_witness:
  "isLoading app_polling \<and>
   on_send (Some ''again'') (PostResolves (Some ''t2'')) app_polling = app_polling"
  using send_rejected_is_noop [of "''again''" app_polling "PostResolves (Some ''t2'')"]
  by (simp add: app_polling_eval)

text \<open>
  C9. \<^verbatim>\<open>handleSuggestionSelect(text)\<close> issues the effects of
  \<^verbatim>\<open>handleSendMessage(text)\<close> and nothing else, for every text, every answer of the
  backend and every state; so the two events are the same state transition.
\<close>

theorem suggestion_is_send:
  "handleSuggestionSelect text outcome s = handleSendMessage (Some text) outcome s \<and>
   on_suggestion text outcome s = on_send (Some text) outcome s"
  by (simp add: handleSuggestionSelect_def on_suggestion_def on_send_def)

text \<open>
  C7. A send that passes the guard first issues, in this order, one \<^verbatim>\<open>setMessages\<close> that
  appends the user message and the placeholder together, \<^verbatim>\<open>setIsLoading(true)\<close>,
  \<^verbatim>\<open>setInputValue('')\<close> and \<^verbatim>\<open>setSuggestedReplies([])\<close>, and only then the
  \<^verbatim>\<open>POST\<close>. It calls \<^verbatim>\<open>setMessages\<close> once, so in every state these effects pass through
  the transcript is either the old one or the old one followed by the user message and
  one placeholder; of the two entries appended only the second is a placeholder.
\<close>

theorem valid_send_sync_update:
  assumes "trim text \<noteq> []" and "\<not> isLoading s" and "\<not> falsy (threadId s)"
  shows "handleSendMessage (Some text) outcome s =
           handleSendMessage_sync text s @ handleSendMessage_resume outcome s \<and>
         run (butlast (handleSendMessage_sync text s)) s =
           s\<lparr>messages := messages s @ [userMessage text, thinking], isLoading := True,
             inputValue := [], suggestedReplies := []\<rparr> \<and>
         last (handleSendMessage_sync text s) = Request (Post text (threadId s)) \<and>
         length (filter is_SetMessages (handleSendMessage_sync text s)) = 1 \<and>
         list_all (\<lambda>t. messages t = messages s \<or>
                        messages t = messages s @ [userMessage text, thinking])
           (states (handleSendMessage_sync text s) s) \<and>
         msg_type (userMessage text) = User \<and> msg_text (userMessage text) = Some text \<and>
         msg_type thinking = Bot \<and> msg_isLoading thinking \<and> \<not> msg_isLoading (userMessage text)"
  using assms
  by (simp add: handleSendMessage_def handleSendMessage_sync_def run_def userMessage_def thinking_def)

theorem valid_send_sync_update_witness:
  "run (butlast (handleSendMessage_sync ''hello'' app_mounted)) app_mounted =
     app_mounted\<lparr>messages := messages app_mounted @ [userMessage ''hello'', thinking],
       isLoading := True, inputValue := [], suggestedReplies := []\<rparr> \<and>
   length (filter is_SetMessages (handleSendMessage_sync ''hello'' app_mounted)) = 1"
  using valid_send_sync_update [of "''hello''" app_mounted]
  by (simp add: app_mounted_eval trim_def js_whitespace_def falsy_def)



subsection \<open>Polling\<close>

lemma pending_step:
  assumes "intervals s = [(h, iv)]" and "is_pending p"
  shows "intervals (on_interval h p s) = intervals s \<and>
         pollingIntervalRef (on_interval h p s) = pollingIntervalRef s \<and>
         isLoading (on_interval h p s) = isLoading s \<and>
         messages (on_interval h p s) = messages s"
  using assms by (cases p) (simp_all add: on_interval_def run_def)

lemma pending_fold:
  assumes "list_all is_pending ps" and "intervals s = [(h, iv)]"
  shows "intervals (fold (on_interval h) ps s) = intervals s \<and>
         pollingIntervalRef (fold (on_interval h) ps s) = pollingIntervalRef s \<and>
         isLoading (fold (on_interval h) ps s) = isLoading s \<and>
         messages (fold (on_interval h) ps s) = messages s"
  using assms
proof (induction ps arbitrary: s)
  case Nil
  then show ?case by simp
next
  case (Cons p ps)
  from Cons.prems have p: "is_pending p" and ps: "list_all is_pending ps" by simp_all
  from pending_step [OF Cons.prems(2) p]
  have step: "intervals (on_interval h p s) = intervals s"
    "pollingIntervalRef (on_interval h p s) = pollingIntervalRef s"
    "isLoading (on_interval h p s) = isLoading s"
    "messages (on_interval h p s) = messages s" by simp_all
  from step(1) Cons.prems(2) have "intervals (on_interval h p s) = [(h, iv)]" by simp
  from Cons.IH [OF ps this] step show ?case by simp
qed

lemma send_accepted:
  assumes "single_flight s" and "\<not> isLoading s" and "trim text \<noteq> []"
    and "\<not> falsy (threadId s)" and "task_id \<noteq> []"
  shows "on_send (Some text) (PostResolves (Some task_id)) s =
           s\<lparr>messages := messages s @ [userMessage text, thinking], isLoading := True,
             inputValue := [], suggestedReplies := [],
             requests := requests s @ [Post text (threadId s)],
             intervals := [(nextHandle s, \<lparr>iv_taskId = task_id, iv_userInfo = userInfo s\<rparr>)],
             pollingIntervalRef := Some (nextHandle s),
             nextHandle := Suc (nextHandle s)\<rparr>"
  using assms idle_no_interval [OF assms(1,2)]
  by (simp add: on_send_def run_def handleSendMessage_def handleSendMessage_sync_def
      pollForResult_def clearInterval_def split: option.splits)

text \<open>
  C1. From a reachable state that is not loading, a send of a text that is not empty after
  trimming, with a session id present, whose submit call returns a task id, followed by any
  number of polls answered \<^verbatim>\<open>pending\<close> and then by one answered \<^verbatim>\<open>completed\<close> with the
  reply \<open>X\<close>, ends in a state whose transcript is the old one followed by the user message
  and the entry \<^verbatim>\<open>{type: 'bot', text: X}\<close>, which is neither a placeholder nor an error;
  no interval is active any more and \<open>isLoading\<close> is cleared. The handle the polls fire on
  is the one the send installed.
\<close>

theorem roundtrip_completed:
  assumes "reachable s" and "\<not> isLoading s" and "trim text \<noteq> []"
    and "\<not> falsy (threadId s)" and "task_id \<noteq> []" and "list_all is_pending polls"
  shows "let s1 = on_send (Some text) (PostResolves (Some task_id)) s;
             h = nextHandle s;
             s2 = fold (on_interval h) polls s1;
             s3 = on_interval h
                    (GetResolves ''completed''
                       (Some \<lparr>result_reply = Some X, result_error = e\<rparr>) f) s2
         in map fst (intervals s1) = [h] \<and>
            last (messages s3) = \<lparr>msg_type = Bot, msg_text = Some X,
                                   msg_isLoading = False, msg_isError = False\<rparr> \<and>
            messages s3 = messages s @ [userMessage text, last (messages s3)] \<and>
            intervals s3 = [] \<and> \<not> isLoading s3"
proof -
  define s1 where "s1 = on_send (Some text) (PostResolves (Some task_id)) s"
  define h where "h = nextHandle s"
  define s2 where "s2 = fold (on_interval h) polls s1"
  define iv where "iv = \<lparr>iv_taskId = task_id, iv_userInfo = userInfo s\<rparr>"
  have sf: "single_flight s" using assms(1) by (rule reachable_single_flight)
  have s1: "s1 = s\<lparr>messages := messages s @ [userMessage text, thinking], isLoading := True,
             inputValue := [], suggestedReplies := [],
             requests := requests s @ [Post text (threadId s)],
             intervals := [(h, iv)],
             pollingIntervalRef := Some h,
             nextHandle := Suc h\<rparr>"
    unfolding s1_def h_def iv_def using send_accepted [OF sf assms(2-5)] .
  then have tbl1: "intervals s1 = [(h, iv)]" by simp
  from pending_fold [OF assms(6) tbl1] s1
  have s2: "intervals s2 = [(h, iv)]" "pollingIntervalRef s2 = Some h"
    "messages s2 = messages s @ [userMessage text, thinking]"
    unfolding s2_def by simp_all
  have "map fst (intervals s1) = [h]" using tbl1 by simp
  moreover from s2 have
    "messages (on_interval h (GetResolves ''completed''
        (Some \<lparr>result_reply = Some X, result_error = e\<rparr>) f) s2) =
     messages s @ [userMessage text, \<lparr>msg_type = Bot, msg_text = Some X,
                                   msg_isLoading = False, msg_isError = False\<rparr>]"
    "intervals (on_interval h (GetResolves ''completed''
        (Some \<lparr>result_reply = Some X, result_error = e\<rparr>) f) s2) = []"
    "\<not> isLoading (on_interval h (GetResolves ''completed''
        (Some \<lparr>result_reply = Some X, result_error = e\<rparr>) f) s2)"
    by (simp_all add: on_interval_def run_def clearInterval_def butlast_append)
  ultimately show ?thesis
    unfolding Let_def s1_def [symmetric] h_def [symmetric] s2_def [symmetric] by simp
qed

theorem roundtrip_completed_witness:
  "last (messages
     (on_interval 1 (GetResolves ''completed'' (Some \<lparr>result_reply = Some ''X'', result_error = None\<rparr>) None)
       (fold (on_interval 1) [GetResolves ''pending'' None None, GetResolves ''pending'' None None]
         (on_send (Some ''hello'') (PostResolves (Some ''t1'')) app_mounted)))) =
     \<lparr>msg_type = Bot, msg_text = Some ''X'', msg_isLoading = False, msg_isError = False\<rparr> \<and>
   \<not> isLoading
     (on_interval 1 (GetResolves ''completed'' (Some \<lparr>result_reply = Some ''X'', result_error = None\<rparr>) None)
       (fold (on_interval 1) [GetResolves ''pending'' None None, GetResolves ''pending'' None None]
         (on_send (Some ''hello'') (PostResolves (Some ''t1'')) app_mounted)))"
  using roundtrip_completed [OF reachable_app_mounted, of "''hello''" "''t1''"
      "[GetResolves ''pending'' None None, GetResolves ''pending'' None None]" "''X''" None None]
  by (simp add: app_mounted_eval trim_def js_whitespace_def falsy_def Let_def)

lemma send_one_timer:
  assumes "single_flight s"
  shows "list_all one_timer (states (handleSendMessage arg outcome s) s)"
proof (cases "handleSendMessage arg outcome s = []")
  case True
  then show ?thesis using assms
    by (auto simp: one_timer_def single_flight_def split: list.splits)
next
  case False
  then have idle: "\<not> isLoading s"
    by (auto simp: handleSendMessage_def Let_def split: if_splits)
  from idle_no_interval [OF assms idle] have none: "intervals s = []" by simp
  show ?thesis
  proof (cases outcome)
    case (PostRejects d)
    with False none show ?thesis
      by (simp add: handleSendMessage_def Let_def handleSendMessage_sync_def
          send_catch_def one_timer_def split: if_splits)
  next
    case (PostResolves t)
    with False none show ?thesis
      by (simp add: handleSendMessage_def Let_def handleSendMessage_sync_def
          send_catch_def pollForResult_def one_timer_def clearInterval_def
          split: if_splits option.splits)
  qed
qed

lemma callback_one_timer:
  assumes "single_flight s" and "map_of (intervals s) h = Some iv"
  shows "list_all one_timer (states (interval_callback iv outcome) s)"
proof -
  from active_interval [OF assms]
  have tbl: "intervals s = [(h, iv)]" and ref: "pollingIntervalRef s = Some h" by simp_all
  show ?thesis
  proof (cases outcome)
    case GetRejects
    with tbl ref show ?thesis
      by (simp add: poll_catch_def one_timer_def clearInterval_def)
  next
    case (GetResolves st res f)
    with tbl ref show ?thesis
      by (simp add: poll_catch_def one_timer_def clearInterval_def split: option.splits)
  qed
qed

lemma pollForResult_replaces:
  assumes "single_flight s"
  shows "intervals (apply_action ClearIntervalIfSet s) = [] \<and>
         intervals (run (pollForResult taskId u) s) =
           [(nextHandle s, \<lparr>iv_taskId = taskId, iv_userInfo = u\<rparr>)] \<and>
         pollingIntervalRef (run (pollForResult taskId u) s) = Some (nextHandle s)"
  using assms
  by (auto simp: single_flight_def pollForResult_def run_def clearInterval_def
      split: list.splits option.splits)

text \<open>
  C3. In every reachable state at most one interval is active, and the ref holds its handle.
  The same bound holds in every state that the effects of a send, of an interval callback
  and of a form submit pass through. \<^verbatim>\<open>pollForResult\<close> starts with the
  \<^verbatim>\<open>clearInterval\<close> of the handle in the ref, after which no interval is active, and then
  installs the new interval: when it returns, the new interval is the only one, whatever
  task the previous one belonged to.
\<close>

theorem one_poll_timer:
  assumes "reachable s"
  shows "length (intervals s) \<le> 1 \<and>
         list_all (\<lambda>e. pollingIntervalRef s = Some (fst e)) (intervals s) \<and>
         list_all one_timer (states (handleSendMessage arg po s) s) \<and>
         (map_of (intervals s) h = Some iv \<longrightarrow>
            list_all one_timer (states (interval_callback iv go) s)) \<and>
         list_all one_timer (states (handleFormSubmit d) s) \<and>
         hd (pollForResult taskId u) = ClearIntervalIfSet \<and>
         intervals (apply_action ClearIntervalIfSet s) = [] \<and>
         intervals (run (pollForResult taskId u) s) =
           [(nextHandle s, \<lparr>iv_taskId = taskId, iv_userInfo = u\<rparr>)] \<and>
         pollingIntervalRef (run (pollForResult taskId u) s) = Some (nextHandle s)"
proof -
  have sf: "single_flight s" using assms by (rule reachable_single_flight)
  have "list_all one_timer (states (handleFormSubmit d) s)"
    using single_flight_length [OF sf] by (simp add: handleFormSubmit_def one_timer_def)
  with single_flight_length [OF sf] send_one_timer [OF sf] callback_one_timer [OF sf]
    pollForResult_replaces [OF sf]
  show ?thesis by (simp add: pollForResult_def)
qed

theorem one_poll_timer_witness:
  "length (intervals app_polling) \<le> 1 \<and>
   intervals (run (pollForResult ''t2'' None) app_polling) =
     [(2, \<lparr>iv_taskId = ''t2'', iv_userInfo = None\<rparr>)] \<and>
   list_all one_timer
     (states (interval_callback \<lparr>iv_taskId = ''t1'', iv_userInfo = None\<rparr> GetRejects) app_polling)"
  using one_poll_timer [OF reachable_app_polling, of "Some ''x''" "PostRejects None" 1
      "\<lparr>iv_taskId = ''t1'', iv_userInfo = None\<rparr>" GetRejects contact_ann "''t2''" None]
  by (simp add: app_polling_eval)

text \<open>
  C10. A poll that resolves the task (status \<^verbatim>\<open>completed\<close> or \<^verbatim>\<open>failed\<close>, or a request
  that threw), fired on the active interval of a reachable state, keeps the length of the
  transcript: the new transcript is the old one without its last entry, followed by exactly
  one resolved entry. That entry is a bot message that is not a placeholder: the reply for
  \<^verbatim>\<open>completed\<close> with a result, the error entry with the detail of the backend or
  \<^verbatim>\<open>Unknown error\<close> for \<^verbatim>\<open>failed\<close>, and the error entry \<^verbatim>\<open>Failed to get a response.\<close>
  when the request threw or a \<^verbatim>\<open>completed\<close> answer has no result. No event makes the
  transcript of a reachable state shorter.
\<close>

theorem resolution_keeps_length:
  assumes "reachable s"
  shows "(map_of (intervals s) h = Some iv \<and> is_resolution go \<longrightarrow>
            messages (on_interval h go s) =
              butlast (messages s) @ [last (messages (on_interval h go s))] \<and>
            length (messages (on_interval h go s)) = length (messages s) \<and>
            messages (on_interval h go s) =
              butlast (messages s) @
                [case go of
                   GetRejects \<Rightarrow>
                     \<lparr>msg_type = Bot, msg_text = Some ''Failed to get a response.'',
                      msg_isLoading = False, msg_isError = True\<rparr>
                 | GetResolves status res form_to_display \<Rightarrow>
                     if status = ''completed'' then
                       (case res of
                          None \<Rightarrow>
                            \<lparr>msg_type = Bot, msg_text = Some ''Failed to get a response.'',
                             msg_isLoading = False, msg_isError = True\<rparr>
                        | Some r \<Rightarrow>
                            \<lparr>msg_type = Bot, msg_text = result_reply r,
                             msg_isLoading = False, msg_isError = False\<rparr>)
                     else
                       \<lparr>msg_type = Bot,
                        msg_text = Some (''An error occurred: '' @
                          or_else (case res of None \<Rightarrow> None | Some r \<Rightarrow> result_error r)
                            ''Unknown error''),
                        msg_isLoading = False, msg_isError = True\<rparr>] \<and>
            msg_type (last (messages (on_interval h go s))) = Bot \<and>
            \<not> msg_isLoading (last (messages (on_interval h go s)))) \<and>
         length (messages s) \<le> length (messages (on_interval h go s)) \<and>
         length (messages s) \<le> length (messages (on_send arg po s)) \<and>
         length (messages s) \<le> length (messages (on_formSubmit d s)) \<and>
         length (messages s) \<le> length (messages (on_inputChange v s))"
proof -
  have sf: "single_flight s" using assms by (rule reachable_single_flight)
  have entry: "messages (on_interval h go s) =
              butlast (messages s) @
                [case go of
                   GetRejects \<Rightarrow>
                     \<lparr>msg_type = Bot, msg_text = Some ''Failed to get a response.'',
                      msg_isLoading = False, msg_isError = True\<rparr>
                 | GetResolves status res form_to_display \<Rightarrow>
                     if status = ''completed'' then
                       (case res of
                          None \<Rightarrow>
                            \<lparr>msg_type = Bot, msg_text = Some ''Failed to get a response.'',
                             msg_isLoading = False, msg_isError = True\<rparr>
                        | Some r \<Rightarrow>
                            \<lparr>msg_type = Bot, msg_text = result_reply r,
                             msg_isLoading = False, msg_isError = False\<rparr>)
                     else
                       \<lparr>msg_type = Bot,
                        msg_text = Some (''An error occurred: '' @
                          or_else (case res of None \<Rightarrow> None | Some r \<Rightarrow> result_error r)
                            ''Unknown error''),
                        msg_isLoading = False, msg_isError = True\<rparr>]"
    (is "_ = _ @ [?m]")
    if act: "map_of (intervals s) h = Some iv" and r: "is_resolution go"
  proof (cases go)
    case GetRejects
    with act show ?thesis
      by (auto simp: on_interval_def run_def poll_catch_def split: option.splits)
  next
    case (GetResolves st r' f)
    with act r show ?thesis
      by (auto simp: on_interval_def run_def poll_catch_def split: option.splits)
  qed
  have res: "messages (on_interval h go s) =
              butlast (messages s) @ [last (messages (on_interval h go s))] \<and>
            length (messages (on_interval h go s)) = length (messages s) \<and>
            msg_type (last (messages (on_interval h go s))) = Bot \<and>
            \<not> msg_isLoading (last (messages (on_interval h go s)))"
    if act: "map_of (intervals s) h = Some iv" and r: "is_resolution go"
  proof -
    from active_interval [OF sf act] have ne: "messages s \<noteq> []" by simp
    then have len: "length (butlast (messages s)) + 1 = length (messages s)" by simp
    from entry [OF act r] obtain m where m: "messages (on_interval h go s) = butlast (messages s) @ [m]"
      and ty: "msg_type m = Bot" and pl: "\<not> msg_isLoading m"
      by (auto split: get_outcome.splits option.splits)
    from m len ty pl show ?thesis by simp
  qed
  have tick: "length (messages s) \<le> length (messages (on_interval h go s))"
  proof (cases "map_of (intervals s) h")
    case None
    then show ?thesis by (simp add: on_interval_def)
  next
    case (Some iv')
    show ?thesis
    proof (cases go)
      case GetRejects
      with Some show ?thesis
        by (auto simp: on_interval_def run_def poll_catch_def split: option.splits)
    next
      case (GetResolves st r' f)
      with Some show ?thesis
        by (auto simp: on_interval_def run_def poll_catch_def split: option.splits)
    qed
  qed
  have snd: "length (messages s) \<le> length (messages (on_send arg po s))"
    by (cases po)
      (auto simp: on_send_def run_def handleSendMessage_def Let_def handleSendMessage_sync_def
        send_catch_def pollForResult_def split: option.splits)
  have frm: "length (messages s) \<le> length (messages (on_formSubmit d s))"
    by (simp add: on_formSubmit_def run_def handleFormSubmit_def)
  have inp: "length (messages s) \<le> length (messages (on_inputChange v s))"
    by (simp add: on_inputChange_def run_def)
  from entry res tick snd frm inp show ?thesis by blast
qed

theorem resolution_keeps_length_witness:
  "messages (on_interval 1 (GetResolves ''failed'' None None) app_polling) =
     butlast (messages app_polling) @
       [\<lparr>msg_type = Bot, msg_text = Some ''An error occurred: Unknown error'',
         msg_isLoading = False, msg_isError = True\<rparr>] \<and>
   length (messages (on_interval 1 (GetResolves ''failed'' None None) app_polling)) = 3 \<and>
   messages (on_interval 1 GetRejects app_polling) =
     butlast (messages app_polling) @
       [\<lparr>msg_type = Bot, msg_text = Some ''Failed to get a response.'',
         msg_isLoading = False, msg_isError = True\<rparr>] \<and>
   messages (on_interval 1
       (GetResolves ''completed'' (Some \<lparr>result_reply = Some ''X'', result_error = None\<rparr>) None)
       app_polling) =
     butlast (messages app_polling) @
       [\<lparr>msg_type = Bot, msg_text = Some ''X'', msg_isLoading = False, msg_isError = False\<rparr>]"
  using resolution_keeps_length [OF reachable_app_polling, of 1
      "\<lparr>iv_taskId = ''t1'', iv_userInfo = None\<rparr>" "GetResolves ''failed'' None None"]
    resolution_keeps_length [OF reachable_app_polling, of 1
      "\<lparr>iv_taskId = ''t1'', iv_userInfo = None\<rparr>" GetRejects]
    resolution_keeps_length [OF reachable_app_polling, of 1
      "\<lparr>iv_taskId = ''t1'', iv_userInfo = None\<rparr>"
      "GetResolves ''completed'' (Some \<lparr>result_reply = Some ''X'', result_error = None\<rparr>) None"]
  by (simp add: app_polling_eval or_else_def)

text \<open>
  C8. Let a poll fire on the active interval of a reachable state in which no contact
  info was captured. If the answer carries \<^verbatim>\<open>form_to_display: 'contact_info'\<close>, the
  callback calls \<^verbatim>\<open>setShowContactForm(true)\<close>, and the flag is set when the callback
  ends unless the status is \<^verbatim>\<open>completed\<close> or \<^verbatim>\<open>failed\<close>. With one of these two statuses,
  or when the request threw, the flag is cleared when the callback ends, whatever the
  answer carried. A form submit records the contact info, clears the flag and appends the
  acknowledgement, and changes nothing else: not the intervals, not the ref, not
  \<open>isLoading\<close>.
\<close>

theorem contact_form_flag:
  assumes "reachable s" and "map_of (intervals s) h = Some iv"
  shows "(userInfo s = None \<and> f = Some ''contact_info'' \<longrightarrow>
            list_ex showContactForm (states (interval_callback iv (GetResolves st res f)) s) \<and>
            (st \<noteq> ''completed'' \<and> st \<noteq> ''failed'' \<longrightarrow>
               showContactForm (on_interval h (GetResolves st res f) s))) \<and>
         (st = ''completed'' \<or> st = ''failed'' \<longrightarrow>
            \<not> showContactForm (on_interval h (GetResolves st res f) s)) \<and>
         \<not> showContactForm (on_interval h GetRejects s) \<and>
         on_formSubmit d s =
           s\<lparr>userInfo := Some d, showContactForm := False,
             messages := messages s @ [acknowledgement]\<rparr> \<and>
         intervals (on_formSubmit d s) = intervals s \<and>
         pollingIntervalRef (on_formSubmit d s) = pollingIntervalRef s \<and>
         isLoading (on_formSubmit d s) = isLoading s"
proof -
  have sf: "single_flight s" using assms(1) by (rule reachable_single_flight)
  from active_interval [OF sf assms(2)]
  have cap: "userInfo s = None \<longrightarrow> iv_userInfo iv = None" by simp
  have shown: "list_ex showContactForm (states (interval_callback iv (GetResolves st res f)) s)"
    if "userInfo s = None" and "f = Some ''contact_info''"
    using that cap by simp
  have stays: "showContactForm (on_interval h (GetResolves st res f) s)"
    if "userInfo s = None" and "f = Some ''contact_info''"
      and "st \<noteq> ''completed''" and "st \<noteq> ''failed''"
    using that cap assms(2) by (simp add: on_interval_def run_def split: option.splits)
  have hidden: "\<not> showContactForm (on_interval h (GetResolves st res f) s)"
    if "st = ''completed'' \<or> st = ''failed''"
    using that assms(2)
    by (auto simp: on_interval_def run_def poll_catch_def split: option.splits)
  have thrown: "\<not> showContactForm (on_interval h GetRejects s)"
    using assms(2) by (auto simp: on_interval_def run_def poll_catch_def split: option.splits)
  have form: "on_formSubmit d s =
           s\<lparr>userInfo := Some d, showContactForm := False,
             messages := messages s @ [acknowledgement]\<rparr>"
    by (simp add: on_formSubmit_def run_def handleFormSubmit_def acknowledgement_def)
  from shown stays hidden thrown form show ?thesis by simp
qed

theorem contact_form_flag_witness:
  "showContactForm (on_interval 1 (GetResolves ''pending'' None (Some ''contact_info'')) app_polling) \<and>
   \<not> showContactForm (on_interval 1
        (GetResolves ''completed'' (Some \<lparr>result_reply = Some ''X'', result_error = None\<rparr>)
           (Some ''contact_info'')) app_form_shown) \<and>
   messages (on_formSubmit contact_ann app_form_shown) =
     messages app_form_shown @ [acknowledgement]"
  using contact_form_flag [OF reachable_app_polling, of 1
      "\<lparr>iv_taskId = ''t1'', iv_userInfo = None\<rparr>" "Some ''contact_info''" "''pending''" None]
    contact_form_flag [OF reachable_app_form_shown, of 1
      "\<lparr>iv_taskId = ''t1'', iv_userInfo = None\<rparr>" "Some ''contact_info''" "''completed''"
      "Some \<lparr>result_reply = Some ''X'', result_error = None\<rparr>" contact_ann]
  by (simp add: app_polling_eval app_form_shown_eval)

text \<open>
  The callback tests the \<open>userInfo\<close> it captured when \<^verbatim>\<open>pollForResult\<close> was called, not
  the current one. In \<open>app_form_sent\<close> the contact info is recorded, and a further poll
  answered \<^verbatim>\<open>pending\<close> that asks for the form still sets the flag.
\<close>

lemma form_shown_again_after_submit:
  "userInfo app_form_sent = Some contact_ann \<and> \<not> showContactForm app_form_sent \<and>
   showContactForm
     (on_interval 1 (GetResolves ''pending'' None (Some ''contact_info'')) app_form_sent)"
  by (simp add: app_form_sent_eval app_polling_eval on_interval_def run_def)

subsection \<open>Resolution after a form submit\<close>

text \<open>
  C4. The resolution replaces the last entry of the transcript, not the placeholder. In
  \<open>app_form_sent\<close> the acknowledgement of the form stands after the placeholder of the
  pending task. When the next poll answers \<^verbatim>\<open>completed\<close> with the reply \<^verbatim>\<open>X\<close>, the
  acknowledgement is the entry that is dropped, and the placeholder stays in the
  transcript, before the reply.
\<close>

theorem acknowledgement_lost_on_completion:
  "messages app_form_sent =
     messages app_mounted @ [userMessage ''hello'', thinking, acknowledgement] \<and>
   messages (on_interval 1
      (GetResolves ''completed'' (Some \<lparr>result_reply = Some ''X'', result_error = None\<rparr>) None)
      app_form_sent) =
     messages app_mounted @
       [userMessage ''hello'', thinking,
        \<lparr>msg_type = Bot, msg_text = Some ''X'', msg_isLoading = False, msg_isError = False\<rparr>]"
  by (simp add: app_form_sent_eval app_polling_eval app_mounted_eval on_interval_def run_def
      clearInterval_def userMessage_def thinking_def)

text \<open>
  The effects of a failed poll that do not depend on the position of the placeholder: the
  interval is cleared, \<open>isLoading\<close> is cleared, and the last entry of the transcript is
  replaced by an error entry whose text is the detail of the backend after the prefix
  \<^verbatim>\<open>An error occurred: \<close>, the fallback \<^verbatim>\<open>Unknown error\<close> when there is no detail, or
  \<^verbatim>\<open>Failed to get a response.\<close> when the request threw.
\<close>

lemma poll_failure_effects:
  assumes "reachable s" and "map_of (intervals s) h = Some iv"
    and "go = GetRejects \<or> go = GetResolves ''failed'' res f"
  shows "intervals (on_interval h go s) = [] \<and> \<not> isLoading (on_interval h go s) \<and>
         messages (on_interval h go s) =
           butlast (messages s) @
             [\<lparr>msg_type = Bot,
               msg_text = Some
                 (if go = GetRejects then ''Failed to get a response.''
                  else ''An error occurred: '' @
                    or_else (case res of None \<Rightarrow> None | Some r \<Rightarrow> result_error r)
                      ''Unknown error''),
               msg_isLoading = False, msg_isError = True\<rparr>]"
proof -
  have sf: "single_flight s" using assms(1) by (rule reachable_single_flight)
  from active_interval [OF sf assms(2)]
  have "intervals s = [(h, iv)]" and "pollingIntervalRef s = Some h" by simp_all
  with assms(2,3) show ?thesis
    by (auto simp: on_interval_def run_def poll_catch_def clearInterval_def)
qed

text \<open>
  C5. A failed poll replaces the last entry of the transcript, not the placeholder. From
  \<open>app_form_sent\<close>, a poll answered \<^verbatim>\<open>failed\<close> with the error \<^verbatim>\<open>bad input\<close>, and a poll
  whose request threw, both leave the placeholder in the transcript and put the error entry
  in the place of the acknowledgement.
\<close>

theorem placeholder_kept_on_failure:
  "messages (on_interval 1
      (GetResolves ''failed'' (Some \<lparr>result_reply = None, result_error = Some ''bad input''\<rparr>) None)
      app_form_sent) =
     messages app_mounted @
       [userMessage ''hello'', thinking,
        \<lparr>msg_type = Bot, msg_text = Some ''An error occurred: bad input'',
         msg_isLoading = False, msg_isError = True\<rparr>] \<and>
   messages (on_interval 1 GetRejects app_form_sent) =
     messages app_mounted @
       [userMessage ''hello'', thinking,
        \<lparr>msg_type = Bot, msg_text = Some ''Failed to get a response.'',
         msg_isLoading = False, msg_isError = True\<rparr>]"
  by (simp add: app_form_sent_eval app_polling_eval app_mounted_eval on_interval_def run_def
      clearInterval_def userMessage_def thinking_def or_else_def poll_catch_def)

end
